theory Spec2Isabelle
  imports Complex_Main "HOL-Library.Sublist"
begin

section \<open>Python values used by the two scripts\<close>

text \<open>
  A Python \<open>str\<close> is a sequence of Unicode code points, and \<open>len\<close> counts code
  points; a string is therefore a list of code points. ASCII literals of the source are
  written with \<open>py\<close>.
\<close>

type_synonym pystr = "nat list"

definition py :: "string \<Rightarrow> pystr" where
  "py s = map of_char s"

text \<open>
  The characters that \<open>str.split()\<close> without arguments treats as separators
  (CPython's table of Unicode whitespace).
\<close>

definition isspace :: "nat \<Rightarrow> bool" where
  "isspace c \<longleftrightarrow>
     (9 \<le> c \<and> c \<le> 13) \<or> (28 \<le> c \<and> c \<le> 32) \<or> c = 133 \<or> c = 160 \<or> c = 5760 \<or>
     (8192 \<le> c \<and> c \<le> 8202) \<or> c = 8232 \<or> c = 8233 \<or> c = 8239 \<or> c = 8287 \<or> c = 12288"

text \<open>
  \<open>s.split()\<close>: the maximal runs of non-whitespace characters, in order; never an
  empty token. The first argument is the token being read.
\<close>

fun split_from :: "pystr \<Rightarrow> pystr \<Rightarrow> pystr list" where
  "split_from cur [] = (if cur = [] then [] else [cur])"
| "split_from cur (c # cs) =
     (if isspace c
      then (if cur = [] then split_from [] cs else cur # split_from [] cs)
      else split_from (cur @ [c]) cs)"

definition str_split :: "pystr \<Rightarrow> pystr list" where
  "str_split s = split_from [] s"

text \<open>\<open>sep.join(parts)\<close>.\<close>

fun str_join :: "pystr \<Rightarrow> pystr list \<Rightarrow> pystr" where
  "str_join sep [] = []"
| "str_join sep [x] = x"
| "str_join sep (x # y # ys) = x @ sep @ str_join sep (y # ys)"

text \<open>\<open>str(n)\<close> for a non-negative integer: its decimal digits.\<close>

fun str_nat :: "nat \<Rightarrow> pystr" where
  "str_nat n = (if n < 10 then [48 + n] else str_nat (n div 10) @ [48 + n mod 10])"

declare str_nat.simps [simp del]

text \<open>
  Exceptions. Both scripts catch \<open>Exception\<close>; the OCR script catches
  \<open>ImportError\<close> first. Each exception carries the text that \<open>str(e)\<close> gives.
\<close>

datatype exc =
    ImportError pystr
  | ValueError pystr
  | IndexError pystr
  | ZeroDivisionError pystr
  | UnicodeEncodeError pystr
  | OtherException pystr

fun str_exc :: "exc \<Rightarrow> pystr" where
  "str_exc (ImportError m) = m"
| "str_exc (ValueError m) = m"
| "str_exc (IndexError m) = m"
| "str_exc (ZeroDivisionError m) = m"
| "str_exc (UnicodeEncodeError m) = m"
| "str_exc (OtherException m) = m"

text \<open>
  \<open>a / b\<close> on two non-negative integers: a float, or \<open>ZeroDivisionError\<close>. Floats
  are modelled by exact rationals.
\<close>

definition truediv :: "nat \<Rightarrow> nat \<Rightarrow> exc + rat" where
  "truediv a b =
     (if b = 0 then Inl (ZeroDivisionError (py ''division by zero''))
      else Inr (of_nat a / of_nat b))"

text \<open>
  The dictionaries handed to \<open>json.dumps\<close>. A number is an \<open>int\<close> or a
  \<open>float\<close>; \<open>JFloat (3 / 10)\<close> is the literal \<open>0.3\<close>. An object lists its keys
  in insertion order.
\<close>

datatype json =
    JBool bool
  | JInt int
  | JFloat rat
  | JStr pystr
  | JObj "(string \<times> json) list"

fun jget :: "json \<Rightarrow> string \<Rightarrow> json option" where
  "jget (JObj kvs) k = map_of kvs k"
| "jget _ k = None"

text \<open>
  Writing a record as UTF-8 with the strict error handler. \<open>json.dumps\<close> with
  \<open>ensure_ascii=False\<close> leaves every code point of a string as it is, and the encoder
  refuses the surrogate code points \<open>U+D800\<close> to \<open>U+DFFF\<close>. The keys are ASCII.
\<close>

definition is_surrogate :: "nat \<Rightarrow> bool" where
  "is_surrogate c \<longleftrightarrow> 55296 \<le> c \<and> c \<le> 57343"

primrec utf8_encodable :: "json \<Rightarrow> bool" where
  "utf8_encodable (JBool b) = True"
| "utf8_encodable (JInt i) = True"
| "utf8_encodable (JFloat q) = True"
| "utf8_encodable (JStr s) = (\<not> list_ex is_surrogate s)"
| "utf8_encodable (JObj kvs) = list_all snd (map (map_prod id utf8_encodable) kvs)"

text \<open>
  \<open>round(x, 2)\<close>. On an \<open>int\<close> it returns the \<open>int\<close>. On a \<open>float\<close> the result
  depends on the binary representation of the quotient, which is not modelled: the
  rounding of a float is the parameter \<open>rnd\<close>.
\<close>

fun round2 :: "(rat \<Rightarrow> rat) \<Rightarrow> json \<Rightarrow> json" where
  "round2 rnd (JFloat q) = JFloat (rnd q)"
| "round2 rnd v = v"

text \<open>
  What a run does, in order: lines printed on standard output, calls of the wrapped
  libraries, and the traceback of an uncaught exception. A run ends with an exit status.
\<close>

datatype 'img event =
    Print json
  | Traceback exc
  | ConvertFromPath pystr "pystr option"
  | ImageToString 'img pystr

section \<open>\<open>extract_pdf.py\<close>\<close>

text \<open>
  \<open>pdfplumber.open(pdf_path)\<close> raises or gives the pages of the document; for each
  page, \<open>page.extract_text(...)\<close> raises or returns a string or \<open>None\<close>.
\<close>

type_synonym page = "exc + pystr option"

fun extract_pages :: "page list \<Rightarrow> exc + pystr list" where
  "extract_pages [] = Inr []"
| "extract_pages (page # pages) =
     (case page of
        Inl e \<Rightarrow> Inl e
      | Inr page_text \<Rightarrow>
          (case extract_pages pages of
             Inl e \<Rightarrow> Inl e
           | Inr text_parts \<Rightarrow>
               Inr (case page_text of
                      None \<Rightarrow> text_parts
                    | Some t \<Rightarrow> if t \<noteq> [] then t # text_parts else text_parts)))"

text \<open>The body of the \<open>try\<close> block of \<open>extract_text\<close>.\<close>

definition extract_try :: "(rat \<Rightarrow> rat) \<Rightarrow> (pystr \<Rightarrow> exc + page list) \<Rightarrow> pystr \<Rightarrow> exc + json" where
  "extract_try rnd pdf_open pdf_path =
     (case pdf_open pdf_path of
        Inl e \<Rightarrow> Inl e
      | Inr pages \<Rightarrow>
          (let total_pages = length pages in
           case extract_pages pages of
             Inl e \<Rightarrow> Inl e
           | Inr text_parts \<Rightarrow>
               (let full_text = str_join [10, 10] text_parts;
                    words = str_split full_text
                in case (if words \<noteq> []
                         then (case truediv (sum_list (map length words)) (length words) of
                                 Inl e \<Rightarrow> Inl e
                               | Inr q \<Rightarrow> Inr (JFloat q))
                         else Inr (JInt 0)) of
                     Inl e \<Rightarrow> Inl e
                   | Inr avg_word_length \<Rightarrow>
                       (let long_words = filter (\<lambda>w. length w > 20) words
                        in Inr (JObj
                             [(''success'', JBool True),
                              (''text'', JStr full_text),
                              (''pages'', JInt (int total_pages)),
                              (''chars'', JInt (int (length full_text))),
                              (''quality'', JObj
                                 [(''avgWordLength'', round2 rnd avg_word_length),
                                  (''longWordCount'', JInt (int (length long_words))),
                                  (''wordCount'', JInt (int (length words)))])])))))"

definition extract_text :: "(rat \<Rightarrow> rat) \<Rightarrow> (pystr \<Rightarrow> exc + page list) \<Rightarrow> pystr \<Rightarrow> json" where
  "extract_text rnd pdf_open pdf_path =
     (case extract_try rnd pdf_open pdf_path of
        Inr result \<Rightarrow> result
      | Inl e \<Rightarrow>
          JObj [(''success'', JBool False), (''error'', JStr (str_exc e)), (''text'', JStr [])])"

text \<open>
  The \<open>__main__\<close> block, reached once the imports at the head of the module have
  succeeded: the events of the run and the exit status. Line 62 makes standard output a
  strict UTF-8 stream. The record of the missing argument is printed with the default
  \<open>ensure_ascii=True\<close> and is ASCII; the result of \<open>extract_text\<close> is printed with
  \<open>ensure_ascii=False\<close>, outside any \<open>try\<close>: when it cannot be encoded, \<open>print\<close>
  raises, nothing is written and the run ends with a traceback and status 1.
\<close>

definition extract_main ::
  "(rat \<Rightarrow> rat) \<Rightarrow> (pystr \<Rightarrow> exc + page list) \<Rightarrow> pystr list \<Rightarrow> unit event list \<times> nat" where
  "extract_main rnd pdf_open argv =
     (if length argv < 2
      then ([Print (JObj [(''success'', JBool False),
                          (''error'', JStr (py ''No file path provided''))])], 1)
      else (let pdf_path = argv ! 1;
                result = extract_text rnd pdf_open pdf_path
            in if utf8_encodable result then ([Print result], 0)
               else ([Traceback (UnicodeEncodeError (py ''surrogates not allowed''))], 1)))"

section \<open>\<open>ocr_pdf.py\<close>\<close>

text \<open>
  The environment of a run: the filesystem test \<open>os.path.exists\<close>, the outcome of the
  three imports at the head of the \<open>try\<close> block, the directories matched by the glob
  \<open>poppler-*/Library/bin\<close>, and the two library calls. \<open>convert_from_path\<close> is called
  with \<open>dpi=200, fmt='jpeg', thread_count=4\<close> and \<open>image_to_string\<close> with
  \<open>config='--psm 1'\<close>; its first argument here is the configured \<open>tesseract_cmd\<close>.
\<close>

record 'img ocr_env =
  path_exists :: "pystr \<Rightarrow> bool"
  import_deps :: "exc option"
  poppler_glob :: "pystr list"
  convert_from_path :: "pystr \<Rightarrow> pystr option \<Rightarrow> exc + 'img list"
  image_to_string :: "pystr option \<Rightarrow> 'img \<Rightarrow> pystr \<Rightarrow> exc + pystr"

definition default_lang :: pystr where
  "default_lang = py ''ind+eng''"

definition lang_flag :: pystr where
  "lang_flag = py ''--lang''"

definition tesseract_path :: pystr where
  "tesseract_path =
     py ''C:'' @ [92] @ py ''Program Files'' @ [92] @ py ''Tesseract-OCR'' @ [92] @ py ''tesseract.exe''"

text \<open>\<open>xs.index(x)\<close> and \<open>xs[i]\<close> raise when there is nothing to return.\<close>

fun list_index :: "pystr list \<Rightarrow> pystr \<Rightarrow> exc + nat" where
  "list_index [] x = Inl (ValueError (py ''list.index(x): x not in list''))"
| "list_index (y # ys) x =
     (if y = x then Inr 0
      else (case list_index ys x of Inl e \<Rightarrow> Inl e | Inr i \<Rightarrow> Inr (Suc i)))"

definition list_get :: "pystr list \<Rightarrow> nat \<Rightarrow> exc + pystr" where
  "list_get xs i = (if i < length xs then Inr (xs ! i) else Inl (IndexError (py ''list index out of range'')))"

text \<open>Lines 23 to 29: the optional language argument.\<close>

definition parse_lang :: "pystr list \<Rightarrow> exc + pystr" where
  "parse_lang argv =
     (if lang_flag \<in> set argv
      then (case list_index argv lang_flag of
              Inl e \<Rightarrow> Inl e
            | Inr lang_idx \<Rightarrow>
                if lang_idx + 1 < length argv then list_get argv (lang_idx + 1)
                else Inr default_lang)
      else Inr default_lang)"

text \<open>Lines 71 to 78: one OCR call per image; the page number is \<open>i + 1\<close>.\<close>

fun ocr_pages ::
  "'img ocr_env \<Rightarrow> pystr option \<Rightarrow> pystr \<Rightarrow> nat \<Rightarrow> 'img list \<Rightarrow> 'img event list \<times> (exc + pystr list)" where
  "ocr_pages env cmd lang i [] = ([], Inr [])"
| "ocr_pages env cmd lang i (img # images) =
     (case image_to_string env cmd img lang of
        Inl e \<Rightarrow> ([ImageToString img lang], Inl e)
      | Inr page_text \<Rightarrow>
          (case ocr_pages env cmd lang (Suc i) images of
             (evs, Inl e) \<Rightarrow> (ImageToString img lang # evs, Inl e)
           | (evs, Inr rest) \<Rightarrow>
               (ImageToString img lang # evs,
                Inr ((py ''--- Page '' @ str_nat (i + 1) @ py '' ---'' @ [10] @ page_text) # rest))))"

text \<open>
  Lines 83 to 111: the quality metrics and the success record. The exact quotients
  agree with the floats of the source in every comparison below unless the text has
  more than \<open>2^50\<close> tokens.
\<close>

definition ocr_record :: "(rat \<Rightarrow> rat) \<Rightarrow> nat \<Rightarrow> pystr \<Rightarrow> exc + json" where
  "ocr_record rnd total_pages full_text =
     (let words = str_split full_text;
          word_count = length words;
          char_count = length full_text
      in case truediv (sum_list (map length words)) (max 1 word_count) of
           Inl e \<Rightarrow> Inl e
         | Inr avg_word_len \<Rightarrow>
             (let long_words = length (filter (\<lambda>w. length w > 25) words)
              in case truediv long_words (max 1 word_count) of
                   Inl e \<Rightarrow> Inl e
                 | Inr long_word_ratio \<Rightarrow>
                     (let quality =
                            (if avg_word_len < 3 \<or> avg_word_len > 15 then 3 / 10
                             else if long_word_ratio > 1 / 10 then 5 / 10
                             else 8 / 10)
                      in Inr (JObj
                           [(''success'', JBool True),
                            (''text'', JStr full_text),
                            (''pages'', JInt (int total_pages)),
                            (''chars'', JInt (int char_count)),
                            (''words'', JInt (int word_count)),
                            (''avgWordLen'', round2 rnd (JFloat avg_word_len)),
                            (''quality'', JFloat quality),
                            (''method'', JStr (py ''tesseract_ocr''))]))))"

text \<open>Lines 39 to 111: the body of the \<open>try\<close> block, with the events it causes.\<close>

definition ocr_try ::
  "(rat \<Rightarrow> rat) \<Rightarrow> 'img ocr_env \<Rightarrow> pystr \<Rightarrow> pystr \<Rightarrow> 'img event list \<times> (exc + unit)" where
  "ocr_try rnd env pdf_path lang =
     (case import_deps env of
        Some e \<Rightarrow> ([], Inl e)
      | None \<Rightarrow>
          (let tesseract_cmd = (if path_exists env tesseract_path then Some tesseract_path else None);
               poppler_path = find (path_exists env) (poppler_glob env)
           in case convert_from_path env pdf_path poppler_path of
                Inl e \<Rightarrow> ([ConvertFromPath pdf_path poppler_path], Inl e)
              | Inr images \<Rightarrow>
                  (let total_pages = length images in
                   case ocr_pages env tesseract_cmd lang 0 images of
                     (evs, Inl e) \<Rightarrow> (ConvertFromPath pdf_path poppler_path # evs, Inl e)
                   | (evs, Inr all_text) \<Rightarrow>
                       (let full_text = str_join [10, 10] all_text
                        in case ocr_record rnd total_pages full_text of
                             Inl e \<Rightarrow> (ConvertFromPath pdf_path poppler_path # evs, Inl e)
                           | Inr record \<Rightarrow>
                               (ConvertFromPath pdf_path poppler_path # evs @ [Print record],
                                Inr ())))))"

text \<open>Lines 31 to 125: the existence check, the \<open>try\<close> block and its two handlers.\<close>

definition ocr_run ::
  "(rat \<Rightarrow> rat) \<Rightarrow> 'img ocr_env \<Rightarrow> pystr \<Rightarrow> pystr \<Rightarrow> 'img event list \<times> nat" where
  "ocr_run rnd env pdf_path lang =
     (if \<not> path_exists env pdf_path
      then ([Print (JObj [(''success'', JBool False),
                          (''error'', JStr (py ''File not found: '' @ pdf_path))])], 1)
      else (case ocr_try rnd env pdf_path lang of
              (evs, Inr _) \<Rightarrow> (evs, 0)
            | (evs, Inl (ImportError m)) \<Rightarrow>
                (evs @ [Print (JObj [(''success'', JBool False),
                     (''error'', JStr (py ''Missing dependency: '' @ m @
                        py ''. Install with: pip install pdf2image pytesseract Pillow''))])], 1)
            | (evs, Inl e) \<Rightarrow>
                (evs @ [Print (JObj [(''success'', JBool False),
                                     (''error'', JStr (str_exc e))])], 1)))"

text \<open>\<open>main\<close>. An exception outside the \<open>try\<close> block ends the run with a traceback.\<close>

definition main :: "(rat \<Rightarrow> rat) \<Rightarrow> 'img ocr_env \<Rightarrow> pystr list \<Rightarrow> 'img event list \<times> nat" where
  "main rnd env argv =
     (if length argv < 2
      then ([Print (JObj [(''success'', JBool False),
                          (''error'', JStr (py ''No PDF path provided''))])], 1)
      else (let pdf_path = argv ! 1 in
            case parse_lang argv of
              Inl e \<Rightarrow> ([Traceback e], 1)
            | Inr lang \<Rightarrow> ocr_run rnd env pdf_path lang))"

section \<open>Sample runs\<close>

text \<open>
  A filesystem that holds only \<open>a.pdf\<close>, whose pages are the given ones; the OCR engine
  reads from an image the text written on it, so an image is identified with that text.
\<close>

definition sample_env :: "pystr list \<Rightarrow> pystr ocr_env" where
  "sample_env page_texts =
     \<lparr>path_exists = (\<lambda>p. p = py ''a.pdf''),
      import_deps = None,
      poppler_glob = [],
      convert_from_path = (\<lambda>p poppler. Inr page_texts),
      image_to_string = (\<lambda>cmd img lang. Inr img)\<rparr>"

text \<open>
  A document store that holds only \<open>a.pdf\<close>, with the given pages; opening another
  path raises with a message that quotes the path.
\<close>

definition sample_open :: "page list \<Rightarrow> pystr \<Rightarrow> exc + page list" where
  "sample_open pages p =
     (if p = py ''a.pdf'' then Inr pages
      else Inl (OtherException (py ''No such file or directory: '' @ p)))"

section \<open>Tokens\<close>

lemma split_from_space:
  "isspace c \<Longrightarrow> split_from cur (a @ c # b) = split_from cur a @ split_from [] b"
  by (induction a arbitrary: cur) auto

lemma split_from_word:
  "\<forall>c\<in>set w. \<not> isspace c \<Longrightarrow> split_from cur w = (if cur @ w = [] then [] else [cur @ w])"
  by (induction w arbitrary: cur) auto

lemma str_split_word:
  assumes "w \<noteq> []" and "\<forall>c\<in>set w. \<not> isspace c" and "isspace c"
  shows "str_split (w @ c # rest) = w # str_split rest"
  using assms by (simp add: str_split_def split_from_space split_from_word)

lemma str_split_sep: "str_split (a @ [10, 10] @ b) = str_split a @ str_split b"
proof -
  have nl: "isspace 10" by (simp add: isspace_def)
  have "str_split (a @ 10 # (10 # b)) = str_split a @ str_split (10 # b)"
    using nl by (simp add: str_split_def split_from_space)
  also have "str_split (10 # b) = str_split b"
    using nl by (simp add: str_split_def)
  finally show ?thesis by simp
qed

lemma str_split_join: "str_split (str_join [10, 10] xs) = concat (map str_split xs)"
proof (induction "[10::nat, 10]" xs rule: str_join.induct)
  case 1
  show ?case by (simp add: str_split_def)
next
  case (2 x)
  show ?case by simp
next
  case (3 x y ys)
  have "str_split (x @ [10, 10] @ str_join [10, 10] (y # ys)) =
        str_split x @ str_split (str_join [10, 10] (y # ys))"
    by (rule str_split_sep)
  with 3 show ?case by simp
qed

lemma str_nat_digits: "c \<in> set (str_nat n) \<Longrightarrow> 48 \<le> c \<and> c \<le> 57"
proof (induction n rule: str_nat.induct)
  case (1 n)
  show ?case
  proof (cases "n < 10")
    case True
    with "1.prems" show ?thesis by (simp add: str_nat.simps [of n])
  next
    case False
    with "1.prems" "1.IH" show ?thesis
      by (auto simp: str_nat.simps [of n])
  qed
qed

lemma str_nat_nonempty: "str_nat n \<noteq> []"
  by (simp add: str_nat.simps [of n])

lemma str_nat_no_space: "\<forall>c\<in>set (str_nat n). \<not> isspace c"
  using str_nat_digits by (fastforce simp: isspace_def)

lemma str_split_page:
  "str_split (py ''--- Page '' @ str_nat n @ py '' ---'' @ [10] @ t) =
     [py ''---'', py ''Page'', str_nat n, py ''---''] @ str_split t"
proof -
  have sp: "isspace 32" and nl: "isspace 10" by (simp_all add: isspace_def)
  have dash: "py ''---'' \<noteq> []" "\<forall>c\<in>set (py ''---''). \<not> isspace c"
    by (simp_all add: py_def isspace_def)
  have page: "py ''Page'' \<noteq> []" "\<forall>c\<in>set (py ''Page''). \<not> isspace c"
    by (simp_all add: py_def isspace_def)
  have "py ''--- Page '' @ str_nat n @ py '' ---'' @ [10] @ t =
        py ''---'' @ 32 # (py ''Page'' @ 32 # (str_nat n @ 32 # (py ''---'' @ 10 # t)))"
    by (simp add: py_def)
  then show ?thesis
    by (simp only: str_split_word [OF dash sp] str_split_word [OF page sp]
          str_split_word [OF str_nat_nonempty str_nat_no_space sp]
          str_split_word [OF dash nl] append_Cons append_Nil)
qed

section \<open>The argument list\<close>

lemma list_index_mem:
  "x \<in> set xs \<Longrightarrow> \<exists>i. list_index xs x = Inr i \<and> i < length xs"
  by (induction xs) auto

lemma parse_lang_total: "\<exists>lang. parse_lang argv = Inr lang"
proof (cases "lang_flag \<in> set argv")
  case True
  then obtain i where "list_index argv lang_flag = Inr i"
    using list_index_mem by blast
  then show ?thesis using True
    by (simp add: parse_lang_def list_get_def)
next
  case False
  then show ?thesis by (simp add: parse_lang_def)
qed

lemma list_index_last:
  assumes "xs \<noteq> []" and "last xs = x" and "x \<notin> set (butlast xs)"
  shows "list_index xs x = Inr (length xs - 1)"
  using assms
proof (induction xs)
  case Nil
  then show ?case by simp
next
  case (Cons y ys)
  show ?case
  proof (cases "ys = []")
    case True
    with Cons.prems show ?thesis by simp
  next
    case False
    with Cons.prems have "y \<noteq> x" "last ys = x" "x \<notin> set (butlast ys)" by auto
    with Cons.IH False show ?thesis by simp
  qed
qed

section \<open>Runs of the OCR script\<close>

lemma ocr_pages_no_print:
  "ocr_pages env cmd lang i images = (evs, res) \<Longrightarrow> Print r \<notin> set evs"
  by (induction images arbitrary: i evs res) (fastforce split: sum.splits prod.splits)+

lemma ocr_record_eq:
  "ocr_record rnd total_pages full_text =
     Inr (JObj
       [(''success'', JBool True),
        (''text'', JStr full_text),
        (''pages'', JInt (int total_pages)),
        (''chars'', JInt (int (length full_text))),
        (''words'', JInt (int (length (str_split full_text)))),
        (''avgWordLen'', JFloat (rnd (of_nat (sum_list (map length (str_split full_text))) /
                                      of_nat (max 1 (length (str_split full_text)))))),
        (''quality'', JFloat
           (if of_nat (sum_list (map length (str_split full_text))) /
                 of_nat (max 1 (length (str_split full_text))) < (3::rat) \<or>
               of_nat (sum_list (map length (str_split full_text))) /
                 of_nat (max 1 (length (str_split full_text))) > (15::rat)
            then 3 / 10
            else if of_nat (length (filter (\<lambda>w. length w > 25) (str_split full_text))) /
                      of_nat (max 1 (length (str_split full_text))) > (1 / 10 :: rat)
                 then 5 / 10 else 8 / 10)),
        (''method'', JStr (py ''tesseract_ocr''))])"
  by (simp add: ocr_record_def truediv_def Let_def)

lemma ocr_try_success:
  assumes "ocr_try rnd env pdf_path lang = (evs, res)" and "Print r \<in> set evs"
  shows "\<exists>images cmd evs' all_text.
           ocr_pages env cmd lang 0 images = (evs', Inr all_text) \<and>
           ocr_record rnd (length images) (str_join [10, 10] all_text) = Inr r"
proof (cases "import_deps env")
  case (Some e)
  with assms show ?thesis by (simp add: ocr_try_def)
next
  case None
  let ?pp = "find (path_exists env) (poppler_glob env)"
  let ?cmd = "if path_exists env tesseract_path then Some tesseract_path else None"
  show ?thesis
  proof (cases "convert_from_path env pdf_path ?pp")
    case (Inl e)
    with None assms show ?thesis by (auto simp: ocr_try_def Let_def)
  next
    case (Inr images)
    obtain evs' res' where pages: "ocr_pages env ?cmd lang 0 images = (evs', res')"
      by (cases "ocr_pages env ?cmd lang 0 images")
    have np: "Print r \<notin> set evs'"
      using ocr_pages_no_print [OF pages] .
    show ?thesis
    proof (cases res')
      case (Inl e)
      with None Inr pages assms np show ?thesis
        by (auto simp: ocr_try_def Let_def)
    next
      case (Inr all_text)
      with None \<open>convert_from_path env pdf_path ?pp = Inr images\<close> pages assms np
      have "ocr_record rnd (length images) (str_join [10, 10] all_text) = Inr r"
        by (auto simp: ocr_try_def Let_def split: sum.splits)
      with pages Inr show ?thesis by blast
    qed
  qed
qed

lemma ocr_run_success:
  assumes "ocr_run rnd env pdf_path lang = (evs, status)" and "Print r \<in> set evs"
    and "jget r ''success'' = Some (JBool True)"
  shows "\<exists>images cmd evs' all_text.
           ocr_pages env cmd lang 0 images = (evs', Inr all_text) \<and>
           ocr_record rnd (length images) (str_join [10, 10] all_text) = Inr r"
proof (cases "path_exists env pdf_path")
  case False
  with assms show ?thesis by (auto simp: ocr_run_def)
next
  case True
  obtain evs0 res where t: "ocr_try rnd env pdf_path lang = (evs0, res)"
    by (cases "ocr_try rnd env pdf_path lang")
  have "Print r \<in> set evs0"
    using assms True t by (auto simp: ocr_run_def split: sum.splits exc.splits)
  with t show ?thesis using ocr_try_success by blast
qed

lemma main_success:
  assumes "main rnd env argv = (evs, status)" and "Print r \<in> set evs"
    and "jget r ''success'' = Some (JBool True)"
  shows "\<exists>images cmd lang evs' all_text.
           ocr_pages env cmd lang 0 images = (evs', Inr all_text) \<and>
           ocr_record rnd (length images) (str_join [10, 10] all_text) = Inr r"
proof -
  obtain lang where lang: "parse_lang argv = Inr lang"
    using parse_lang_total by blast
  have long: "\<not> length argv < 2"
    using assms by (auto simp: main_def)
  have "ocr_run rnd env (argv ! 1) lang = (evs, status)"
    using assms(1) long lang by (simp add: main_def)
  from ocr_run_success [OF this assms(2,3)] show ?thesis by blast
qed

lemma ocr_pages_length:
  "ocr_pages env cmd lang i images = (evs, Inr all_text) \<Longrightarrow> length all_text = length images"
  by (induction images arbitrary: i evs all_text) (auto split: sum.splits prod.splits)

lemma ocr_pages_nth:
  "ocr_pages env cmd lang i images = (evs, Inr all_text) \<Longrightarrow> k < length images \<Longrightarrow>
     \<exists>t. all_text ! k = py ''--- Page '' @ str_nat (i + k + 1) @ py '' ---'' @ [10] @ t"
proof (induction images arbitrary: i k evs all_text)
  case Nil
  then show ?case by simp
next
  case (Cons img images)
  from Cons.prems(1) obtain t evs' rest where
    rest: "ocr_pages env cmd lang (Suc i) images = (evs', Inr rest)" and
    all: "all_text = (py ''--- Page '' @ str_nat (i + 1) @ py '' ---'' @ [10] @ t) # rest"
    by (auto split: sum.splits prod.splits)
  show ?case
  proof (cases k)
    case 0
    with all show ?thesis by simp
  next
    case (Suc j)
    with Cons.prems(2) have "j < length images" by simp
    from Cons.IH [OF rest this] Suc all show ?thesis by simp
  qed
qed

lemma ocr_pages_words:
  "ocr_pages env cmd lang i images = (evs, Inr all_text) \<Longrightarrow>
     4 * length images \<le> length (concat (map str_split all_text))"
proof (induction images arbitrary: i evs all_text)
  case Nil
  then show ?case by simp
next
  case (Cons img images)
  from Cons.prems obtain t evs' rest where
    rest: "ocr_pages env cmd lang (Suc i) images = (evs', Inr rest)" and
    all: "all_text = (py ''--- Page '' @ str_nat (i + 1) @ py '' ---'' @ [10] @ t) # rest"
    by (auto split: sum.splits prod.splits)
  have "length (str_split (py ''--- Page '' @ str_nat (i + 1) @ py '' ---'' @ [10] @ t)) =
        4 + length (str_split t)"
    by (subst str_split_page) simp
  with Cons.IH [OF rest] all show ?case
    by simp
qed

lemma sublist_str_join: "x \<in> set xs \<Longrightarrow> sublist x (str_join sep xs)"
proof (induction sep xs rule: str_join.induct)
  case (1 sep)
  then show ?case by simp
next
  case (2 sep y)
  then show ?case by simp
next
  case (3 sep y z zs)
  show ?case
  proof (cases "x = y")
    case True
    then show ?thesis by simp
  next
    case False
    with 3 have "sublist x (str_join sep (z # zs))" by simp
    then obtain ps ss where "str_join sep (z # zs) = ps @ x @ ss"
      by (auto simp: sublist_def)
    then have "y @ sep @ str_join sep (z # zs) = (y @ sep @ ps) @ x @ ss" by simp
    then show ?thesis
      unfolding str_join.simps sublist_def by blast
  qed
qed

lemmas run_defs = main_def parse_lang_def lang_flag_def default_lang_def list_get_def
  ocr_run_def ocr_try_def sample_env_def tesseract_path_def ocr_record_eq Let_def
  str_nat.simps str_split_def isspace_def py_def

section \<open>Missing arguments and missing files\<close>

text \<open>
  C6: started without a file path argument, \<open>extract_pdf.py\<close> prints the record
  \<open>{"success": false, "error": "No file path provided"}\<close> and \<open>ocr_pdf.py\<close> prints
  \<open>{"success": false, "error": "No PDF path provided"}\<close>; each prints nothing else
  and exits with status 1.
\<close>

theorem no_path_argument:
  assumes "length argv < 2"
  shows "extract_main rnd pdf_open argv =
           ([Print (JObj [(''success'', JBool False),
                          (''error'', JStr (py ''No file path provided''))])], 1) \<and>
         main rnd env argv =
           ([Print (JObj [(''success'', JBool False),
                          (''error'', JStr (py ''No PDF path provided''))])], 1)"
  using assms by (simp add: extract_main_def main_def)

theorem no_path_argument_witness:
  "length [py ''script.py''] < 2 \<and>
   extract_main id (sample_open []) [py ''script.py''] =
     ([Print (JObj [(''success'', JBool False),
                    (''error'', JStr (py ''No file path provided''))])], 1) \<and>
   main id (sample_env []) [py ''script.py''] =
     ([Print (JObj [(''success'', JBool False),
                    (''error'', JStr (py ''No PDF path provided''))])], 1)"
  using no_path_argument [of "[py ''script.py'']" id "sample_open []" "sample_env []"]
  by simp

text \<open>
  C5: when the path given to \<open>ocr_pdf.py\<close> does not exist, the run consists of one
  printed record, \<open>{"success": false, "error": "File not found: <path>"}\<close>, and ends
  with status 1; neither the conversion nor the OCR engine is called.
\<close>

theorem file_not_found:
  assumes "2 \<le> length argv" and "\<not> path_exists env (argv ! 1)"
  shows "main rnd env argv =
           ([Print (JObj [(''success'', JBool False),
                          (''error'', JStr (py ''File not found: '' @ argv ! 1))])], 1)"
proof -
  obtain lang where "parse_lang argv = Inr lang"
    using parse_lang_total by blast
  with assms show ?thesis
    by (simp add: main_def ocr_run_def)
qed

theorem file_not_found_witness:
  "2 \<le> length [py ''ocr_pdf.py'', py ''b.pdf''] \<and>
   \<not> path_exists (sample_env [[]]) ([py ''ocr_pdf.py'', py ''b.pdf''] ! 1) \<and>
   main id (sample_env [[]]) [py ''ocr_pdf.py'', py ''b.pdf''] =
     ([Print (JObj [(''success'', JBool False),
                    (''error'', JStr (py ''File not found: b.pdf''))])], 1)"
  using file_not_found [of "[py ''ocr_pdf.py'', py ''b.pdf'']" "sample_env [[]]" id]
  by (simp add: sample_env_def py_def)

section \<open>The quality score\<close>

text \<open>
  C1: when \<open>ocr_pdf.py\<close> prints a success record, and the average token length of
  its text (the sum of the token lengths over \<open>max(1, number of tokens)\<close>, tokens
  split at whitespace) is below 3 or above 15, the quality in that record is 0.3.
\<close>

theorem quality_out_of_range:
  assumes "main rnd env argv = (evs, status)" and "Print r \<in> set evs"
    and "jget r ''success'' = Some (JBool True)"
    and "jget r ''text'' = Some (JStr text)"
    and "of_nat (sum_list (map length (str_split text))) / of_nat (max 1 (length (str_split text))) < (3::rat) \<or>
         of_nat (sum_list (map length (str_split text))) / of_nat (max 1 (length (str_split text))) > (15::rat)"
  shows "jget r ''quality'' = Some (JFloat (3 / 10))"
proof -
  obtain n full_text where r: "ocr_record rnd n full_text = Inr r"
    using main_success [OF assms(1-3)] by blast
  with assms(4) have "full_text = text"
    by (auto simp: ocr_record_eq)
  with r assms(5) show ?thesis
    by (auto simp: ocr_record_eq)
qed

theorem quality_out_of_range_witness:
  "\<exists>evs r.
     main id (sample_env [[], []]) [py ''ocr_pdf.py'', py ''a.pdf''] = (evs, 0) \<and>
     Print r \<in> set evs \<and>
     jget r ''success'' = Some (JBool True) \<and>
     jget r ''text'' = Some (JStr (py ''--- Page 1 ---'' @ [10, 10, 10] @ py ''--- Page 2 ---'' @ [10])) \<and>
     rat_of_nat (sum_list (map length
        (str_split (py ''--- Page 1 ---'' @ [10, 10, 10] @ py ''--- Page 2 ---'' @ [10])))) /
       rat_of_nat (max 1 (length
        (str_split (py ''--- Page 1 ---'' @ [10, 10, 10] @ py ''--- Page 2 ---'' @ [10])))) = 11 / 4 \<and>
     jget r ''quality'' = Some (JFloat (3 / 10))"
proof -
  let ?text = "py ''--- Page 1 ---'' @ [10, 10, 10] @ py ''--- Page 2 ---'' @ [10]"
  let ?r = "JObj
         [(''success'', JBool True),
          (''text'', JStr ?text),
          (''pages'', JInt 2),
          (''chars'', JInt 32),
          (''words'', JInt 8),
          (''avgWordLen'', JFloat (11 / 4)),
          (''quality'', JFloat (3 / 10)),
          (''method'', JStr (py ''tesseract_ocr''))]"
  let ?evs = "[ConvertFromPath (py ''a.pdf'') None,
       ImageToString [] (py ''ind+eng''),
       ImageToString [] (py ''ind+eng''),
       Print ?r]"
  have run: "main id (sample_env [[], []]) [py ''ocr_pdf.py'', py ''a.pdf''] = (?evs, 0)"
    by (simp add: run_defs)
  have mem: "Print ?r \<in> set ?evs" by simp
  have succ: "jget ?r ''success'' = Some (JBool True)" by simp
  have field_text: "jget ?r ''text'' = Some (JStr ?text)" by simp
  have avg: "rat_of_nat (sum_list (map length (str_split ?text))) /
             rat_of_nat (max 1 (length (str_split ?text))) = 11 / 4"
    by (simp add: str_split_def isspace_def py_def)
  have "rat_of_nat (sum_list (map length (str_split ?text))) /
          rat_of_nat (max 1 (length (str_split ?text))) < 3 \<or>
        rat_of_nat (sum_list (map length (str_split ?text))) /
          rat_of_nat (max 1 (length (str_split ?text))) > 15"
    unfolding avg by simp
  then have "jget ?r ''quality'' = Some (JFloat (3 / 10))"
    by (rule quality_out_of_range [OF run mem succ field_text])
  with run mem succ field_text avg show ?thesis by blast
qed

text \<open>
  C2: when \<open>ocr_pdf.py\<close> prints a success record and the average token length of its
  text lies between 3 and 15, the quality is 0.5 if the tokens longer than 25 characters
  are more than a tenth of \<open>max(1, number of tokens)\<close>, and 0.8 otherwise.
\<close>

theorem quality_in_range:
  assumes "main rnd env argv = (evs, status)" and "Print r \<in> set evs"
    and "jget r ''success'' = Some (JBool True)"
    and "jget r ''text'' = Some (JStr text)"
    and "(3::rat) \<le> of_nat (sum_list (map length (str_split text))) / of_nat (max 1 (length (str_split text)))"
    and "of_nat (sum_list (map length (str_split text))) / of_nat (max 1 (length (str_split text))) \<le> (15::rat)"
  shows "jget r ''quality'' =
           Some (JFloat (if of_nat (length (filter (\<lambda>w. 25 < length w) (str_split text))) /
                            of_nat (max 1 (length (str_split text))) > (1 / 10 :: rat)
                         then 5 / 10 else 8 / 10))"
proof -
  obtain n full_text where r: "ocr_record rnd n full_text = Inr r"
    using main_success [OF assms(1-3)] by blast
  with assms(4) have "full_text = text"
    by (auto simp: ocr_record_eq)
  with r assms(5,6) show ?thesis
    by (auto simp: ocr_record_eq)
qed

theorem quality_in_range_witness:
  "(\<exists>evs r.
      main id (sample_env [py ''hello world'']) [py ''ocr_pdf.py'', py ''a.pdf''] = (evs, 0) \<and>
      Print r \<in> set evs \<and>
      jget r ''text'' = Some (JStr (py ''--- Page 1 ---'' @ [10] @ py ''hello world'')) \<and>
      jget r ''quality'' = Some (JFloat (8 / 10))) \<and>
   (\<exists>evs r.
      main id (sample_env [py ''abcdefghijklmnopqrstuvwxyz'']) [py ''ocr_pdf.py'', py ''a.pdf''] = (evs, 0) \<and>
      Print r \<in> set evs \<and>
      jget r ''text'' = Some (JStr (py ''--- Page 1 ---'' @ [10] @ py ''abcdefghijklmnopqrstuvwxyz'')) \<and>
      jget r ''quality'' = Some (JFloat (5 / 10)))"
proof -
  let ?argv = "[py ''ocr_pdf.py'', py ''a.pdf'']"
  let ?t1 = "py ''--- Page 1 ---'' @ [10] @ py ''hello world''"
  let ?r1 = "JObj
         [(''success'', JBool True),
          (''text'', JStr ?t1),
          (''pages'', JInt 1),
          (''chars'', JInt 26),
          (''words'', JInt 6),
          (''avgWordLen'', JFloat (7 / 2)),
          (''quality'', JFloat (4 / 5)),
          (''method'', JStr (py ''tesseract_ocr''))]"
  let ?evs1 = "[ConvertFromPath (py ''a.pdf'') None,
       ImageToString (py ''hello world'') (py ''ind+eng''),
       Print ?r1]"
  let ?t2 = "py ''--- Page 1 ---'' @ [10] @ py ''abcdefghijklmnopqrstuvwxyz''"
  let ?r2 = "JObj
         [(''success'', JBool True),
          (''text'', JStr ?t2),
          (''pages'', JInt 1),
          (''chars'', JInt 41),
          (''words'', JInt 5),
          (''avgWordLen'', JFloat (37 / 5)),
          (''quality'', JFloat (1 / 2)),
          (''method'', JStr (py ''tesseract_ocr''))]"
  let ?evs2 = "[ConvertFromPath (py ''a.pdf'') None,
       ImageToString (py ''abcdefghijklmnopqrstuvwxyz'') (py ''ind+eng''),
       Print ?r2]"
  have run1: "main id (sample_env [py ''hello world'']) ?argv = (?evs1, 0)"
    by (simp add: run_defs)
  have run2: "main id (sample_env [py ''abcdefghijklmnopqrstuvwxyz'']) ?argv = (?evs2, 0)"
    by (simp add: run_defs)
  have split1: "str_split ?t1 =
      [py ''---'', py ''Page'', py ''1'', py ''---'', py ''hello'', py ''world'']"
    by (simp add: str_split_def isspace_def py_def)
  have split2: "str_split ?t2 =
      [py ''---'', py ''Page'', py ''1'', py ''---'', py ''abcdefghijklmnopqrstuvwxyz'']"
    by (simp add: str_split_def isspace_def py_def)
  have mem1: "Print ?r1 \<in> set ?evs1" and succ1: "jget ?r1 ''success'' = Some (JBool True)"
    and text1: "jget ?r1 ''text'' = Some (JStr ?t1)"
    by simp_all
  have mem2: "Print ?r2 \<in> set ?evs2" and succ2: "jget ?r2 ''success'' = Some (JBool True)"
    and text2: "jget ?r2 ''text'' = Some (JStr ?t2)"
    by simp_all
  have lo1: "3 \<le> rat_of_nat (sum_list (map length (str_split ?t1))) /
                  rat_of_nat (max 1 (length (str_split ?t1)))"
    and hi1: "rat_of_nat (sum_list (map length (str_split ?t1))) /
                rat_of_nat (max 1 (length (str_split ?t1))) \<le> 15"
    unfolding split1 by (simp_all add: py_def)
  have lo2: "3 \<le> rat_of_nat (sum_list (map length (str_split ?t2))) /
                  rat_of_nat (max 1 (length (str_split ?t2)))"
    and hi2: "rat_of_nat (sum_list (map length (str_split ?t2))) /
                rat_of_nat (max 1 (length (str_split ?t2))) \<le> 15"
    unfolding split2 by (simp_all add: py_def)
  have q1: "jget ?r1 ''quality'' = Some (JFloat (8 / 10))"
    using quality_in_range [OF run1 mem1 succ1 text1 lo1 hi1]
    unfolding split1 by (simp add: py_def)
  have q2: "jget ?r2 ''quality'' = Some (JFloat (5 / 10))"
    using quality_in_range [OF run2 mem2 succ2 text2 lo2 hi2]
    unfolding split2 by (simp add: py_def)
  from run1 mem1 text1 q1 run2 mem2 text2 q2 show ?thesis by blast
qed

section \<open>Page delimiters\<close>

text \<open>
  C9: a success record of \<open>ocr_pdf.py\<close> for \<open>n \<ge> 1\<close> pages has a non-empty text that
  contains the line \<open>--- Page i ---\<close> for every \<open>i\<close> from 1 to \<open>n\<close>; the tokens
  \<open>---\<close>, \<open>Page\<close> and \<open>i\<close> of each delimiter are among the tokens that the metrics
  count, and the word count is at least \<open>4 * n\<close>, whatever the OCR engine returned.
\<close>

theorem page_delimiters:
  assumes "main rnd env argv = (evs, status)" and "Print r \<in> set evs"
    and "jget r ''success'' = Some (JBool True)"
    and "jget r ''pages'' = Some (JInt (int n))" and "1 \<le> n"
  shows "\<exists>text. jget r ''text'' = Some (JStr text) \<and> text \<noteq> [] \<and>
           jget r ''words'' = Some (JInt (int (length (str_split text)))) \<and>
           4 * n \<le> length (str_split text) \<and>
           (\<forall>i\<in>{1..n}. sublist (py ''--- Page '' @ str_nat i @ py '' ---'' @ [10]) text \<and>
                       {py ''---'', py ''Page'', str_nat i} \<subseteq> set (str_split text))"
proof -
  obtain images cmd lang evs' all_text where
    pages: "ocr_pages env cmd lang 0 images = (evs', Inr all_text)" and
    r: "ocr_record rnd (length images) (str_join [10, 10] all_text) = Inr r"
    using main_success [OF assms(1-3)] by blast
  let ?text = "str_join [10, 10] all_text"
  from r assms(4) have n: "n = length images"
    by (auto simp: ocr_record_eq)
  have len: "length all_text = length images"
    using ocr_pages_length [OF pages] .
  have field_text: "jget r ''text'' = Some (JStr ?text)"
    using r by (auto simp: ocr_record_eq)
  have field_words: "jget r ''words'' = Some (JInt (int (length (str_split ?text))))"
    using r by (auto simp: ocr_record_eq)
  have count: "4 * n \<le> length (str_split ?text)"
    using ocr_pages_words [OF pages] n by (simp add: str_split_join)
  have delim: "sublist (py ''--- Page '' @ str_nat i @ py '' ---'' @ [10]) ?text \<and>
               {py ''---'', py ''Page'', str_nat i} \<subseteq> set (str_split ?text)"
    if "i \<in> {1..n}" for i
  proof -
    from that n have k: "i - 1 < length images" and i: "0 + (i - 1) + 1 = i" by auto
    from ocr_pages_nth [OF pages k] i obtain t where
      block: "all_text ! (i - 1) = py ''--- Page '' @ str_nat i @ py '' ---'' @ [10] @ t"
      by auto
    have mem: "all_text ! (i - 1) \<in> set all_text"
      using k len by simp
    have "sublist (all_text ! (i - 1)) ?text"
      using mem by (rule sublist_str_join)
    moreover have "sublist (py ''--- Page '' @ str_nat i @ py '' ---'' @ [10]) (all_text ! (i - 1))"
      unfolding block sublist_def by (intro exI [of _ "[]"] exI [of _ t]) simp
    ultimately have s: "sublist (py ''--- Page '' @ str_nat i @ py '' ---'' @ [10]) ?text"
      by (rule sublist_order.order.trans [rotated])
    have "str_split (all_text ! (i - 1)) =
            [py ''---'', py ''Page'', str_nat i, py ''---''] @ str_split t"
      unfolding block by (rule str_split_page)
    then have "{py ''---'', py ''Page'', str_nat i} \<subseteq> set (str_split (all_text ! (i - 1)))"
      by simp
    moreover have "set (str_split (all_text ! (i - 1))) \<subseteq> set (str_split ?text)"
      using mem by (auto simp: str_split_join)
    ultimately have "{py ''---'', py ''Page'', str_nat i} \<subseteq> set (str_split ?text)"
      by (rule subset_trans)
    with s show ?thesis by simp
  qed
  have "?text \<noteq> []"
  proof
    assume "?text = []"
    moreover have "1 \<in> {1..n}" using assms(5) by simp
    ultimately have "sublist (py ''--- Page '' @ str_nat 1 @ py '' ---'' @ [10]) []"
      using delim by metis
    then show False by simp
  qed
  with field_text field_words count delim show ?thesis by blast
qed

theorem page_delimiters_witness:
  "\<exists>evs r.
     main id (sample_env [[], []]) [py ''ocr_pdf.py'', py ''a.pdf''] = (evs, 0) \<and>
     Print r \<in> set evs \<and>
     jget r ''success'' = Some (JBool True) \<and>
     jget r ''pages'' = Some (JInt 2) \<and>
     jget r ''text'' = Some (JStr (py ''--- Page 1 ---'' @ [10, 10, 10] @ py ''--- Page 2 ---'' @ [10])) \<and>
     jget r ''words'' = Some (JInt 8) \<and>
     sublist (py ''--- Page 1 ---'' @ [10])
       (py ''--- Page 1 ---'' @ [10, 10, 10] @ py ''--- Page 2 ---'' @ [10]) \<and>
     sublist (py ''--- Page 2 ---'' @ [10])
       (py ''--- Page 1 ---'' @ [10, 10, 10] @ py ''--- Page 2 ---'' @ [10])"
proof -
  let ?text = "py ''--- Page 1 ---'' @ [10, 10, 10] @ py ''--- Page 2 ---'' @ [10]"
  let ?r = "JObj
         [(''success'', JBool True),
          (''text'', JStr ?text),
          (''pages'', JInt 2),
          (''chars'', JInt 32),
          (''words'', JInt 8),
          (''avgWordLen'', JFloat (11 / 4)),
          (''quality'', JFloat (3 / 10)),
          (''method'', JStr (py ''tesseract_ocr''))]"
  let ?evs = "[ConvertFromPath (py ''a.pdf'') None,
       ImageToString [] (py ''ind+eng''),
       ImageToString [] (py ''ind+eng''),
       Print ?r]"
  have run: "main id (sample_env [[], []]) [py ''ocr_pdf.py'', py ''a.pdf''] = (?evs, 0)"
    by (simp add: run_defs)
  have mem: "Print ?r \<in> set ?evs" by simp
  have succ: "jget ?r ''success'' = Some (JBool True)" by simp
  have pages: "jget ?r ''pages'' = Some (JInt (int 2))" by simp
  from page_delimiters [OF run mem succ pages] obtain s where
    t: "jget ?r ''text'' = Some (JStr s)" and
    d: "\<forall>i\<in>{1..2}. sublist (py ''--- Page '' @ str_nat i @ py '' ---'' @ [10]) s"
    by auto
  from t have eq: "s = ?text" by simp
  have one: "(1::nat) \<in> {1..2}" and two: "(2::nat) \<in> {1..2}" by simp_all
  have "sublist (py ''--- Page '' @ str_nat 1 @ py '' ---'' @ [10]) ?text"
    using d one unfolding eq by blast
  then have s1: "sublist (py ''--- Page 1 ---'' @ [10]) ?text"
    by (simp add: str_nat.simps py_def)
  have "sublist (py ''--- Page '' @ str_nat 2 @ py '' ---'' @ [10]) ?text"
    using d two unfolding eq by blast
  then have s2: "sublist (py ''--- Page 2 ---'' @ [10]) ?text"
    by (simp add: str_nat.simps py_def)
  have "jget ?r ''pages'' = Some (JInt 2)" "jget ?r ''text'' = Some (JStr ?text)"
    "jget ?r ''words'' = Some (JInt 8)"
    by simp_all
  with run mem succ s1 s2 show ?thesis by blast
qed

section \<open>A trailing language flag\<close>

text \<open>
  C10, amended: when \<open>--lang\<close> is the last argument and occurs nowhere before, parsing
  the arguments raises nothing, the language is the default \<open>ind+eng\<close>, and the run
  continues with the existence check and the \<open>try\<close> block under that language.
\<close>

theorem trailing_lang_flag:
  assumes "2 \<le> length argv" and "last argv = lang_flag" and "lang_flag \<notin> set (butlast argv)"
  shows "parse_lang argv = Inr default_lang \<and>
         main rnd env argv = ocr_run rnd env (argv ! 1) default_lang"
proof -
  from assms(1) have ne: "argv \<noteq> []" by auto
  then have mem: "lang_flag \<in> set argv"
    using assms(2) last_in_set by metis
  have "list_index argv lang_flag = Inr (length argv - 1)"
    using list_index_last [OF ne assms(2,3)] .
  with mem ne have "parse_lang argv = Inr default_lang"
    by (simp add: parse_lang_def)
  with assms(1) show ?thesis by (simp add: main_def)
qed

theorem trailing_lang_flag_witness:
  "2 \<le> length [py ''ocr_pdf.py'', py ''a.pdf'', py ''--lang''] \<and>
   last [py ''ocr_pdf.py'', py ''a.pdf'', py ''--lang''] = lang_flag \<and>
   lang_flag \<notin> set (butlast [py ''ocr_pdf.py'', py ''a.pdf'', py ''--lang'']) \<and>
   parse_lang [py ''ocr_pdf.py'', py ''a.pdf'', py ''--lang''] = Inr (py ''ind+eng'') \<and>
   main id (sample_env [py ''hello world'']) [py ''ocr_pdf.py'', py ''a.pdf'', py ''--lang''] =
     ocr_run id (sample_env [py ''hello world'']) (py ''a.pdf'') (py ''ind+eng'')"
proof -
  let ?argv = "[py ''ocr_pdf.py'', py ''a.pdf'', py ''--lang'']"
  have h1: "2 \<le> length ?argv" by simp
  have h2: "last ?argv = lang_flag" by (simp add: lang_flag_def)
  have h3: "lang_flag \<notin> set (butlast ?argv)" by (simp add: lang_flag_def py_def)
  from trailing_lang_flag [OF h1 h2 h3, of id "sample_env [py ''hello world'']"] h1 h2 h3
  show ?thesis by (simp add: default_lang_def)
qed

text \<open>
  C10 as stated fails when \<open>--lang\<close> also occurs earlier: \<open>index\<close> finds the first
  occurrence, and the argument after it, here the second \<open>--lang\<close>, becomes the
  language handed to the OCR engine.
\<close>

theorem trailing_lang_flag_counterexample:
  "last [py ''ocr_pdf.py'', py ''a.pdf'', py ''--lang'', py ''--lang''] = py ''--lang'' \<and>
   parse_lang [py ''ocr_pdf.py'', py ''a.pdf'', py ''--lang'', py ''--lang''] = Inr (py ''--lang'') \<and>
   parse_lang [py ''ocr_pdf.py'', py ''a.pdf'', py ''--lang'', py ''--lang''] \<noteq> Inr default_lang \<and>
   main id (sample_env [py ''hello world''])
       [py ''ocr_pdf.py'', py ''a.pdf'', py ''--lang'', py ''--lang''] =
     ([ConvertFromPath (py ''a.pdf'') None,
       ImageToString (py ''hello world'') (py ''--lang''),
       Print (JObj
         [(''success'', JBool True),
          (''text'', JStr (py ''--- Page 1 ---'' @ [10] @ py ''hello world'')),
          (''pages'', JInt 1),
          (''chars'', JInt 26),
          (''words'', JInt 6),
          (''avgWordLen'', JFloat (7 / 2)),
          (''quality'', JFloat (8 / 10)),
          (''method'', JStr (py ''tesseract_ocr''))])], 0)"
  by (simp add: run_defs)

section \<open>Runs of the text extractor\<close>

lemma extract_pages_ok: "\<exists>text_parts. extract_pages (map Inr page_texts) = Inr text_parts"
  by (induction page_texts) auto


lemma extract_try_eq:
  assumes "pdf_open pdf_path = Inr pages" and "extract_pages pages = Inr text_parts"
  shows "extract_try rnd pdf_open pdf_path =
     Inr (JObj
       [(''success'', JBool True),
        (''text'', JStr (str_join [10, 10] text_parts)),
        (''pages'', JInt (int (length pages))),
        (''chars'', JInt (int (length (str_join [10, 10] text_parts)))),
        (''quality'', JObj
           [(''avgWordLength'',
               (if str_split (str_join [10, 10] text_parts) \<noteq> []
                then JFloat (rnd (of_nat (sum_list (map length (str_split (str_join [10, 10] text_parts)))) /
                                  of_nat (length (str_split (str_join [10, 10] text_parts)))))
                else JInt 0)),
            (''longWordCount'',
               JInt (int (length (filter (\<lambda>w. length w > 20) (str_split (str_join [10, 10] text_parts)))))),
            (''wordCount'', JInt (int (length (str_split (str_join [10, 10] text_parts)))))])])"
  using assms by (simp add: extract_try_def truediv_def Let_def)

lemma extract_text_success:
  assumes "jget (extract_text rnd pdf_open pdf_path) ''success'' = Some (JBool True)"
  shows "\<exists>pages text_parts. pdf_open pdf_path = Inr pages \<and> extract_pages pages = Inr text_parts"
proof (cases "pdf_open pdf_path")
  case (Inl e)
  with assms show ?thesis by (simp add: extract_text_def extract_try_def)
next
  case (Inr pages)
  show ?thesis
  proof (cases "extract_pages pages")
    case (Inl e)
    with Inr assms show ?thesis by (simp add: extract_text_def extract_try_def)
  next
    case inr: (Inr text_parts)
    with Inr show ?thesis by simp
  qed
qed

lemmas extract_defs = extract_main_def extract_text_def extract_try_def sample_open_def
  truediv_def Let_def str_split_def isspace_def py_def

text \<open>
  C3: when \<open>pdfplumber\<close> opens the document and extracts every page without raising,
  \<open>extract_text\<close> returns a success record whose \<open>pages\<close> is the number of pages of
  the document and whose \<open>chars\<close> is the length of its \<open>text\<close>.
\<close>

theorem extract_pages_and_chars:
  assumes "pdf_open pdf_path = Inr (map Inr page_texts)"
  shows "\<exists>text.
           jget (extract_text rnd pdf_open pdf_path) ''success'' = Some (JBool True) \<and>
           jget (extract_text rnd pdf_open pdf_path) ''text'' = Some (JStr text) \<and>
           jget (extract_text rnd pdf_open pdf_path) ''pages'' = Some (JInt (int (length page_texts))) \<and>
           jget (extract_text rnd pdf_open pdf_path) ''chars'' = Some (JInt (int (length text)))"
proof -
  obtain text_parts where "extract_pages (map Inr page_texts) = Inr text_parts"
    using extract_pages_ok by blast
  from extract_try_eq [where pdf_open = pdf_open and pdf_path = pdf_path, OF assms this] show ?thesis
    by (simp add: extract_text_def)
qed

theorem extract_pages_and_chars_witness:
  "sample_open (map Inr [Some (py ''hello world''), None, Some (py ''bye'')]) (py ''a.pdf'') =
     Inr (map Inr [Some (py ''hello world''), None, Some (py ''bye'')]) \<and>
   jget (extract_text id (sample_open (map Inr [Some (py ''hello world''), None, Some (py ''bye'')]))
          (py ''a.pdf'')) ''text'' = Some (JStr (py ''hello world'' @ [10, 10] @ py ''bye'')) \<and>
   jget (extract_text id (sample_open (map Inr [Some (py ''hello world''), None, Some (py ''bye'')]))
          (py ''a.pdf'')) ''pages'' = Some (JInt 3) \<and>
   jget (extract_text id (sample_open (map Inr [Some (py ''hello world''), None, Some (py ''bye'')]))
          (py ''a.pdf'')) ''chars'' = Some (JInt 16)"
proof -
  let ?ts = "[Some (py ''hello world''), None, Some (py ''bye'')]"
  let ?out = "extract_text id (sample_open (map Inr ?ts)) (py ''a.pdf'')"
  have h: "sample_open (map Inr ?ts) (py ''a.pdf'') = Inr (map Inr ?ts)"
    by (simp add: sample_open_def)
  have t: "jget ?out ''text'' = Some (JStr (py ''hello world'' @ [10, 10] @ py ''bye''))"
    by (simp add: extract_defs)
  from extract_pages_and_chars
         [where pdf_open = "sample_open (map Inr ?ts)" and pdf_path = "py ''a.pdf''" and rnd = id, OF h]
  obtain s where
    a: "jget ?out ''text'' = Some (JStr s)" and
    b: "jget ?out ''pages'' = Some (JInt (int (length ?ts)))" and
    c: "jget ?out ''chars'' = Some (JInt (int (length s)))"
    by blast
  from a t have eq: "s = py ''hello world'' @ [10, 10] @ py ''bye''" by simp
  have p: "jget ?out ''pages'' = Some (JInt 3)"
    using b by simp
  have "jget ?out ''chars'' = Some (JInt 16)"
    using c unfolding eq by (simp add: py_def)
  with h t p show ?thesis by blast
qed

text \<open>
  C4: when no exception is raised by the library and the text of the record has no
  token, the run succeeds (no division by zero is attempted) and the record has
  \<open>quality.wordCount = 0\<close> and \<open>quality.avgWordLength = 0\<close>, the integer of the guarded
  branch.
\<close>

theorem extract_empty_text:
  assumes "pdf_open pdf_path = Inr (map Inr page_texts)"
    and "jget (extract_text rnd pdf_open pdf_path) ''text'' = Some (JStr text)"
    and "str_split text = []"
  shows "\<exists>quality.
           jget (extract_text rnd pdf_open pdf_path) ''success'' = Some (JBool True) \<and>
           jget (extract_text rnd pdf_open pdf_path) ''quality'' = Some quality \<and>
           jget quality ''wordCount'' = Some (JInt 0) \<and>
           jget quality ''avgWordLength'' = Some (JInt 0)"
proof -
  obtain text_parts where "extract_pages (map Inr page_texts) = Inr text_parts"
    using extract_pages_ok by blast
  from extract_try_eq [where pdf_open = pdf_open and pdf_path = pdf_path, OF assms(1) this] assms(2,3) show ?thesis
    by (auto simp: extract_text_def)
qed

theorem extract_empty_text_witness:
  "sample_open (map Inr [Some (py ''  ''), None]) (py ''a.pdf'') =
     Inr (map Inr [Some (py ''  ''), None]) \<and>
   jget (extract_text id (sample_open (map Inr [Some (py ''  ''), None])) (py ''a.pdf'')) ''text'' =
     Some (JStr (py ''  '')) \<and>
   str_split (py ''  '') = [] \<and>
   (\<exists>quality.
      jget (extract_text id (sample_open (map Inr [Some (py ''  ''), None])) (py ''a.pdf''))
        ''quality'' = Some quality \<and>
      jget quality ''wordCount'' = Some (JInt 0) \<and>
      jget quality ''avgWordLength'' = Some (JInt 0))"
proof -
  let ?ts = "[Some (py ''  ''), None]"
  let ?out = "extract_text id (sample_open (map Inr ?ts)) (py ''a.pdf'')"
  have h: "sample_open (map Inr ?ts) (py ''a.pdf'') = Inr (map Inr ?ts)"
    by (simp add: sample_open_def)
  have t: "jget ?out ''text'' = Some (JStr (py ''  ''))"
    by (simp add: extract_defs)
  have e: "str_split (py ''  '') = []"
    by (simp add: str_split_def isspace_def py_def)
  from extract_empty_text
         [where pdf_open = "sample_open (map Inr ?ts)" and pdf_path = "py ''a.pdf''" and rnd = id,
          OF h t e] h t e
  show ?thesis by blast
qed




text \<open>
  C8: in every success record of \<open>extract_text\<close>, \<open>quality.longWordCount\<close> is the number
  of whitespace-separated tokens of \<open>text\<close> that are longer than 20 characters.
\<close>

theorem extract_long_word_count:
  assumes "jget (extract_text rnd pdf_open pdf_path) ''success'' = Some (JBool True)"
  shows "\<exists>text quality.
           jget (extract_text rnd pdf_open pdf_path) ''text'' = Some (JStr text) \<and>
           jget (extract_text rnd pdf_open pdf_path) ''quality'' = Some quality \<and>
           jget quality ''longWordCount'' =
             Some (JInt (int (length (filter (\<lambda>w. 20 < length w) (str_split text)))))"
proof -
  obtain pages text_parts where
    "pdf_open pdf_path = Inr pages" and "extract_pages pages = Inr text_parts"
    using extract_text_success [OF assms] by blast
  from extract_try_eq [where pdf_open = pdf_open and pdf_path = pdf_path, OF this] show ?thesis
    by (simp add: extract_text_def)
qed

theorem extract_long_word_count_witness:
  "jget (extract_text id (sample_open [Inr (Some (py ''hello internationalization-ish''))])
          (py ''a.pdf'')) ''success'' = Some (JBool True) \<and>
   jget (extract_text id (sample_open [Inr (Some (py ''hello internationalization-ish''))])
          (py ''a.pdf'')) ''text'' = Some (JStr (py ''hello internationalization-ish'')) \<and>
   map length (str_split (py ''hello internationalization-ish'')) = [5, 24] \<and>
   (\<exists>quality.
      jget (extract_text id (sample_open [Inr (Some (py ''hello internationalization-ish''))])
             (py ''a.pdf'')) ''quality'' = Some quality \<and>
      jget quality ''longWordCount'' = Some (JInt 1))"
proof -
  let ?t = "py ''hello internationalization-ish''"
  let ?out = "extract_text id (sample_open [Inr (Some ?t)]) (py ''a.pdf'')"
  have h: "jget ?out ''success'' = Some (JBool True)"
    by (simp add: extract_defs)
  have t: "jget ?out ''text'' = Some (JStr ?t)"
    by (simp add: extract_defs)
  have sp: "str_split ?t = [py ''hello'', py ''internationalization-ish'']"
    by (simp add: str_split_def isspace_def py_def)
  from extract_long_word_count
         [where pdf_open = "sample_open [Inr (Some ?t)]" and pdf_path = "py ''a.pdf''" and rnd = id,
          OF h]
  obtain s quality where
    a: "jget ?out ''text'' = Some (JStr s)" and
    q: "jget ?out ''quality'' = Some quality" and
    c: "jget quality ''longWordCount'' =
       Some (JInt (int (length (filter (\<lambda>w. 20 < length w) (str_split s)))))"
    by blast
  from a t have eq: "s = ?t" by simp
  have n: "jget quality ''longWordCount'' = Some (JInt 1)"
    using c unfolding eq sp by (simp add: py_def)
  have "map length (str_split ?t) = [5, 24]"
    unfolding sp by (simp add: py_def)
  with n h t q show ?thesis by blast
qed

end
